theory Spec2Isabelle
  imports Complex_Main
begin

section \<open>Data model of server.py\<close>

text \<open>
  The picture-frame server keeps its state in module-level variables (\<open>CONFIG\<close>,
  \<open>image_files\<close>, \<open>current_image_index\<close>, \<open>cycling_enabled\<close>, \<open>cycle_thread\<close>) and in
  the files of the directory \<open>uploaded_images\<close>. The embedding passes that state
  explicitly. The Pillow library and the display are collaborators; what they compute
  is a parameter of the model, except for the size of an image after \<open>resize\<close> and
  \<open>crop\<close>, which Pillow documents.
\<close>

type_synonym bytes = string

text \<open>A \<open>pathlib.Path\<close> as the list of its components; \<open>p / n\<close> appends one.\<close>

type_synonym path = "string list"

definition UPLOAD_DIR :: path where
  "UPLOAD_DIR = [''uploaded_images'']"

definition name :: "path \<Rightarrow> string" where
  "name p = (if p = [] then [] else last p)"

text \<open>A decoded \<open>PIL.Image\<close>: its size and mode; the pixels are not modelled.\<close>

record image =
  width :: int
  height :: int
  mode :: string

text \<open>The interpreter's exceptions that the modelled code can raise by itself.\<close>

datatype py_error =
  ZeroDivisionError | ValueError | TypeError | KeyError | IndexError | FileNotFoundError

text \<open>
  Python computes the aspect ratios in binary floating point. The model does not fix
  that arithmetic: the six operations \<open>resize_and_crop_image\<close> uses are parameters.
  \<open>exact_ops\<close> below instantiates them with exact rational arithmetic.
\<close>

record 'f float_ops =
  int_div :: "int \<Rightarrow> int \<Rightarrow> 'f"
  int_mul :: "int \<Rightarrow> 'f \<Rightarrow> 'f"
  int_divf :: "int \<Rightarrow> 'f \<Rightarrow> 'f"
  gt :: "'f \<Rightarrow> 'f \<Rightarrow> bool"
  is_zero :: "'f \<Rightarrow> bool"
  to_int :: "'f \<Rightarrow> int"

definition exact_ops :: "rat float_ops" where
  "exact_ops = \<lparr> int_div = (\<lambda>a b. of_int a / of_int b),
                 int_mul = (\<lambda>a x. of_int a * x),
                 int_divf = (\<lambda>a x. of_int a / x),
                 gt = (\<lambda>x y. y < x),
                 is_zero = (\<lambda>x. x = 0),
                 to_int = (\<lambda>x. if 0 \<le> x then \<lfloor>x\<rfloor> else \<lceil>x\<rceil>) \<rparr>"

subsection \<open>Pillow: size after resize and crop\<close>

text \<open>
  \<open>Image.resize\<close> returns an image of the requested size and raises \<open>ValueError\<close> when
  a side is not positive. \<open>Image.crop\<close> returns the box's region, of size
  \<open>(right - left, lower - upper)\<close>, also where the box reaches outside the image, and
  raises \<open>ValueError\<close> when \<open>right < left\<close> or \<open>lower < upper\<close>.
\<close>

definition resize :: "image \<Rightarrow> int \<times> int \<Rightarrow> py_error + image" where
  "resize im sz =
     (case sz of (w, h) \<Rightarrow>
        if w \<le> 0 \<or> h \<le> 0 then Inl ValueError
        else Inr (im\<lparr>width := w, height := h\<rparr>))"

definition crop :: "image \<Rightarrow> int \<times> int \<times> int \<times> int \<Rightarrow> py_error + image" where
  "crop im box =
     (case box of (left, upper, right, lower) \<Rightarrow>
        if right < left \<or> lower < upper then Inl ValueError
        else Inr (im\<lparr>width := right - left, height := lower - upper\<rparr>))"

definition convert_RGB :: "image \<Rightarrow> image" where
  "convert_RGB im = (if mode im \<noteq> ''RGB'' then im\<lparr>mode := ''RGB''\<rparr> else im)"

subsection \<open>resize_and_crop_image (server.py, lines 68-94)\<close>

text \<open>
  Lines 70-83: the two aspect ratios and the size to scale to. A division by zero
  raises, as in Python.
\<close>

definition scaled_size :: "'f float_ops \<Rightarrow> image \<Rightarrow> int \<times> int \<Rightarrow> py_error + int \<times> int" where
  "scaled_size fl im target_size =
     (case target_size of (target_width, target_height) \<Rightarrow>
        if height im = 0 then Inl ZeroDivisionError
        else let img_ratio = int_div fl (width im) (height im) in
        if target_height = 0 then Inl ZeroDivisionError
        else let target_ratio = int_div fl target_width target_height in
        if gt fl img_ratio target_ratio
        then Inr (to_int fl (int_mul fl target_height img_ratio), target_height)
        else if is_zero fl img_ratio then Inl ZeroDivisionError
        else Inr (target_width, to_int fl (int_divf fl target_width img_ratio)))"

text \<open>The crop box of lines 89-92; \<open>//\<close> is floor division, as \<open>div\<close> on \<open>int\<close>.\<close>

definition crop_box :: "int \<times> int \<Rightarrow> int \<times> int \<Rightarrow> int \<times> int \<times> int \<times> int" where
  "crop_box new_size target_size =
     (case new_size of (new_width, new_height) \<Rightarrow>
      case target_size of (target_width, target_height) \<Rightarrow>
        let left = (new_width - target_width) div 2;
            top' = (new_height - target_height) div 2;
            right = left + target_width;
            bottom = top' + target_height
        in (left, top', right, bottom))"

definition resize_and_crop_image ::
  "'f float_ops \<Rightarrow> image \<Rightarrow> int \<times> int \<Rightarrow> py_error + image" where
  "resize_and_crop_image fl im target_size =
     (case scaled_size fl im target_size of
        Inl e \<Rightarrow> Inl e
      | Inr new_size \<Rightarrow>
          (case resize im new_size of
             Inl e \<Rightarrow> Inl e
           | Inr im' \<Rightarrow> crop im' (crop_box new_size target_size)))"


subsection \<open>Module state\<close>

text \<open>
  \<open>CONFIG\<close> is a dictionary from field names to values. A value is an integer, a float
  (by the number it denotes) or a pair of integers (\<open>display_size\<close>).
\<close>

datatype cval = IntV int | FloatV rat | SizeV int int

definition default_CONFIG :: "string \<rightharpoonup> cval" where
  "default_CONFIG =
     [''max_images'' \<mapsto> IntV 10, ''cycle_interval'' \<mapsto> IntV 600,
      ''display_size'' \<mapsto> SizeV 800 480, ''saturation'' \<mapsto> FloatV (1 / 2)]"

text \<open>
  The globals of lines 25-52, the files on disk (\<open>disk\<close>), the contents of
  \<open>config.json\<close> when it exists, and the images the panel was made to show, oldest
  first (\<open>displayed\<close>). \<open>cycle_thread\<close> is \<open>None\<close>, or \<open>Some alive\<close> for a thread object.
\<close>

record state =
  CONFIG :: "string \<rightharpoonup> cval"
  current_image_index :: int
  image_files :: "path list"
  cycling_enabled :: bool
  cycle_thread :: "bool option"
  disk :: "path \<rightharpoonup> bytes"
  config_json :: "(string \<rightharpoonup> cval) option"
  displayed :: "path list"

text \<open>
  What the process finds around it: whether \<open>pillow_heif\<close> was imported, the arithmetic
  of floats, and Pillow's decoder (\<open>Inl\<close> carries the text of the exception it raises),
  JPEG encoder and \<open>Image.thumbnail\<close>. Decoding is taken to happen, and to fail, in
  \<open>Image.open\<close>; writing a file is taken to succeed.
\<close>

record 'f env =
  HEIC_SUPPORT :: bool
  arith :: "'f float_ops"
  image_open :: "bytes \<Rightarrow> string + image"
  encode_jpeg :: "image \<Rightarrow> nat \<Rightarrow> bytes"
  thumbnail :: "image \<Rightarrow> int \<times> int \<Rightarrow> image"

text \<open>
  The state at the start of the process: the defaults of lines 25-52, with the saved
  configuration merged over them when \<open>config.json\<close> exists (lines 738-741).
\<close>

definition initial_state :: "(string \<rightharpoonup> cval) option \<Rightarrow> (path \<rightharpoonup> bytes) \<Rightarrow> state" where
  "initial_state saved files =
     \<lparr> CONFIG = (case saved of None \<Rightarrow> default_CONFIG | Some m \<Rightarrow> default_CONFIG ++ m),
       current_image_index = 0,
       image_files = [],
       cycling_enabled = True,
       cycle_thread = None,
       disk = files,
       config_json = saved,
       displayed = [] \<rparr>"

subsection \<open>Strings, paths and lists as Python has them\<close>

definition lower_char :: "char \<Rightarrow> char" where
  "lower_char c =
     (let n = (of_char c :: nat) in if 65 \<le> n \<and> n \<le> 90 then char_of (n + 32) else c)"

definition lower :: "string \<Rightarrow> string" where
  "lower s = map lower_char s"

definition endswith :: "string \<Rightarrow> string \<Rightarrow> bool" where
  "endswith s suf = (length suf \<le> length s \<and> drop (length s - length suf) s = suf)"

text \<open>\<open>PurePath.suffix\<close>: from the last dot of the name, unless that dot is first or last.\<close>

definition suffix :: "string \<Rightarrow> string" where
  "suffix nm =
     (let ext = rev (takeWhile (\<lambda>c. c \<noteq> CHR ''.'') (rev nm)) in
      if CHR ''.'' \<in> set nm \<and> length ext + 1 < length nm \<and> ext \<noteq> []
      then CHR ''.'' # ext else [])"

text \<open>\<open>xs[i]\<close>: a negative index counts from the end; out of range raises.\<close>

definition py_index :: "'a list \<Rightarrow> int \<Rightarrow> py_error + 'a" where
  "py_index xs i =
     (if 0 \<le> i \<and> i < int (length xs) then Inr (xs ! nat i)
      else if i < 0 \<and> 0 \<le> int (length xs) + i then Inr (xs ! nat (int (length xs) + i))
      else Inl IndexError)"

text \<open>\<open>xs[k:]\<close>: a negative start counts from the end, and is clipped at the list's start.\<close>

definition slice_from :: "'a list \<Rightarrow> int \<Rightarrow> 'a list" where
  "slice_from xs k =
     (if k < 0 then drop (nat (int (length xs) + k)) xs else drop (nat k) xs)"

definition thumb_path_of :: "string \<Rightarrow> path" where
  "thumb_path_of nm = UPLOAD_DIR @ [''thumbnails'', ''thumb_'' @ nm]"

subsection \<open>Reading CONFIG\<close>

text \<open>\<open>len(image_files) > CONFIG["max_images"]\<close> (line 230).\<close>

definition len_exceeds :: "nat \<Rightarrow> cval option \<Rightarrow> py_error + bool" where
  "len_exceeds n v =
     (case v of
        None \<Rightarrow> Inl KeyError
      | Some (IntV m) \<Rightarrow> Inr (m < int n)
      | Some (FloatV r) \<Rightarrow> Inr (r < of_nat n)
      | Some (SizeV a b) \<Rightarrow> Inl TypeError)"

text \<open>\<open>target_width, target_height = target_size\<close> (line 70).\<close>

definition as_size :: "cval option \<Rightarrow> py_error + int \<times> int" where
  "as_size v =
     (case v of
        None \<Rightarrow> Inl KeyError
      | Some (SizeV a b) \<Rightarrow> Inr (a, b)
      | Some (IntV m) \<Rightarrow> Inl TypeError
      | Some (FloatV r) \<Rightarrow> Inl TypeError)"

text \<open>\<open>xs[-CONFIG["max_images"]:]\<close> (line 165): a slice index must be an integer.\<close>

definition last_max_images :: "'a list \<Rightarrow> cval option \<Rightarrow> py_error + 'a list" where
  "last_max_images xs v =
     (case v of
        None \<Rightarrow> Inl KeyError
      | Some (IntV m) \<Rightarrow> Inr (slice_from xs (- m))
      | Some (FloatV r) \<Rightarrow> Inl TypeError
      | Some (SizeV a b) \<Rightarrow> Inl TypeError)"

text \<open>\<open>time.sleep(CONFIG["cycle_interval"])\<close> (line 126) raises on a negative length.\<close>

definition sleep :: "cval option \<Rightarrow> py_error option" where
  "sleep v =
     (case v of
        None \<Rightarrow> Some KeyError
      | Some (IntV n) \<Rightarrow> (if n < 0 then Some ValueError else None)
      | Some (FloatV r) \<Rightarrow> (if r < 0 then Some ValueError else None)
      | Some (SizeV a b) \<Rightarrow> Some TypeError)"

subsection \<open>display_image and create_thumbnail (lines 97-156)\<close>

text \<open>
  \<open>display_image\<close> swallows every exception: a file that is missing or that does not
  decode leaves the panel as it was.
\<close>

definition display_image :: "'f env \<Rightarrow> path \<Rightarrow> state \<Rightarrow> state" where
  "display_image env image_path s =
     (case disk s image_path of
        None \<Rightarrow> s
      | Some data \<Rightarrow>
          (case image_open env data of
             Inl e \<Rightarrow> s
           | Inr im \<Rightarrow> s\<lparr>displayed := displayed s @ [image_path]\<rparr>))"

definition create_thumbnail :: "'f env \<Rightarrow> path \<Rightarrow> state \<Rightarrow> path option \<times> state" where
  "create_thumbnail env image_path s =
     (let thumb_path = thumb_path_of (name image_path) in
      if disk s thumb_path = None then
        (case disk s image_path of
           None \<Rightarrow> (None, s)
         | Some data \<Rightarrow>
             (case image_open env data of
                Inl e \<Rightarrow> (None, s)
              | Inr im \<Rightarrow>
                  (Some thumb_path,
                   s\<lparr>disk := (disk s)(thumb_path \<mapsto>
                        encode_jpeg env (convert_RGB (thumbnail env im (150, 90))) 85)\<rparr>)))
      else (Some thumb_path, s))"

subsection \<open>cycle_images and start_cycling (lines 117-134)\<close>

text \<open>One pass through the body of the loop, lines 122-124.\<close>

definition tick :: "'f env \<Rightarrow> state \<Rightarrow> py_error + state" where
  "tick env s =
     (if image_files s \<noteq> [] then
        (case py_index (image_files s) (current_image_index s) of
           Inl e \<Rightarrow> Inl e
         | Inr p \<Rightarrow>
             (let s1 = display_image env p s in
              Inr (s1\<lparr>current_image_index :=
                     (current_image_index s1 + 1) mod int (length (image_files s1))\<rparr>)))
      else Inr s)"

text \<open>
  The loop of the cycling thread, run for \<open>n\<close> passes with nothing else running in
  between; after them the thread is asleep in line 126. An exception ends the thread,
  and so does finding \<open>cycling_enabled\<close> false at the head of the loop.
\<close>

fun cycle_images :: "'f env \<Rightarrow> nat \<Rightarrow> state \<Rightarrow> state" where
  "cycle_images env 0 s = s"
| "cycle_images env (Suc n) s =
     (if cycling_enabled s then
        (case tick env s of
           Inl e \<Rightarrow> s\<lparr>cycle_thread := Some False\<rparr>
         | Inr s1 \<Rightarrow>
             (case sleep (CONFIG s1 ''cycle_interval'') of
                Some e \<Rightarrow> s1\<lparr>cycle_thread := Some False\<rparr>
              | None \<Rightarrow> cycle_images env n s1))
      else s\<lparr>cycle_thread := Some False\<rparr>)"

definition start_cycling :: "state \<Rightarrow> state" where
  "start_cycling s =
     (if cycle_thread s = None \<or> cycle_thread s = Some False
      then s\<lparr>cycle_thread := Some True\<rparr> else s)"

subsection \<open>load_existing_images and startup_event (lines 159-179)\<close>

text \<open>
  \<open>listing\<close> is what \<open>UPLOAD_DIR.iterdir()\<close> yields, each entry with its \<open>st_mtime\<close>.
  \<open>sorted\<close> is stable, as \<open>sort_key\<close> is.
\<close>

definition load_existing_images ::
  "'f env \<Rightarrow> (path \<times> rat) list \<Rightarrow> state \<Rightarrow> py_error + state" where
  "load_existing_images env listing s =
     (let found = map fst (sort_key snd
            (filter (\<lambda>f. lower (suffix (name (fst f))) \<in> set [''.jpg'', ''.jpeg'']) listing))
      in case last_max_images found (CONFIG s ''max_images'') of
           Inl e \<Rightarrow> Inl e
         | Inr kept \<Rightarrow>
             (let s1 = s\<lparr>image_files := kept\<rparr>;
                  s2 = fold (\<lambda>img t. snd (create_thumbnail env img t)) (image_files s1) s1
              in Inr (if image_files s2 \<noteq> []
                      then display_image env (hd (image_files s2)) s2 else s2)))"

definition startup_event ::
  "'f env \<Rightarrow> (path \<times> rat) list \<Rightarrow> state \<Rightarrow> py_error + state" where
  "startup_event env listing s =
     (case load_existing_images env listing s of
        Inl e \<Rightarrow> Inl e
      | Inr s1 \<Rightarrow> Inr (start_cycling s1))"

subsection \<open>upload_image (lines 182-246)\<close>

text \<open>
  Every failure of an upload is an \<open>HTTPException\<close> with status 400. The model keeps
  where it was raised: line 188 (\<open>UnsupportedFormatError\<close>), the decoder in lines
  199-206 (\<open>DecodeError\<close>, with the detail of the response), or any other exception,
  caught in line 245 (\<open>Uncaught\<close>).
\<close>

datatype upload_error = UnsupportedFormatError | DecodeError string | Uncaught py_error

definition status_code :: "upload_error \<Rightarrow> nat" where
  "status_code e = 400"

definition heic_detail :: string where
  "heic_detail =
     ''HEIC files are not supported. Please install pillow-heif: pip install pillow-heif''"

definition is_heic :: "string \<Rightarrow> bool" where
  "is_heic filename =
     (endswith (lower filename) ''.heic'' \<or> endswith (lower filename) ''.heif'')"

definition image_path_at :: "string \<Rightarrow> path" where
  "image_path_at timestamp = UPLOAD_DIR @ [''image_'' @ timestamp @ ''.jpg'']"

text \<open>
  Lines 230-236 once the limit is exceeded. The element is popped before its file is
  unlinked, so an \<open>unlink\<close> that raises leaves the list shortened and the thumbnail
  in place.
\<close>

definition evict :: "state \<Rightarrow> py_error option \<times> state" where
  "evict s =
     (case image_files s of
        [] \<Rightarrow> (Some IndexError, s)
      | oldest # rest \<Rightarrow>
          (let s1 = s\<lparr>image_files := rest\<rparr> in
           if disk s1 oldest = None then (Some FileNotFoundError, s1)
           else
             (let s2 = s1\<lparr>disk := (disk s1)(oldest := None)\<rparr>;
                  thumb_path = thumb_path_of (name oldest)
              in (None, if disk s2 thumb_path \<noteq> None
                        then s2\<lparr>disk := (disk s2)(thumb_path := None)\<rparr> else s2))))"

text \<open>
  Lines 216-241, from the processed image on. \<open>timestamp\<close> is what
  \<open>datetime.now().strftime("%Y%m%d_%H%M%S")\<close> yields at the request.
\<close>

definition store_image ::
  "'f env \<Rightarrow> image \<Rightarrow> string \<Rightarrow> state \<Rightarrow> (upload_error + string) \<times> state" where
  "store_image env processed_image timestamp s =
     (let filename = ''image_'' @ timestamp @ ''.jpg'';
          filepath = image_path_at timestamp;
          s1 = s\<lparr>disk := (disk s)(filepath \<mapsto> encode_jpeg env processed_image 95)\<rparr>;
          s2 = s1\<lparr>image_files := image_files s1 @ [filepath]\<rparr>;
          s3 = snd (create_thumbnail env filepath s2)
      in case len_exceeds (length (image_files s3)) (CONFIG s3 ''max_images'') of
           Inl e \<Rightarrow> (Inl (Uncaught e), s3)
         | Inr exceeds \<Rightarrow>
             (case (if exceeds then evict s3 else (None, s3)) of
                (Some e, s4) \<Rightarrow> (Inl (Uncaught e), s4)
              | (None, s4) \<Rightarrow> (Inr filename, display_image env filepath s4)))"

text \<open>The handler: the result (the stored file's name on success) and the state after.\<close>

definition upload_image ::
  "'f env \<Rightarrow> string \<Rightarrow> bytes \<Rightarrow> string \<Rightarrow> state \<Rightarrow> (upload_error + string) \<times> state" where
  "upload_image env filename contents timestamp s =
     (if is_heic filename \<and> \<not> HEIC_SUPPORT env then (Inl UnsupportedFormatError, s)
      else
        (case image_open env contents of
           Inl e \<Rightarrow>
             (Inl (DecodeError
                (if is_heic filename then ''Error processing HEIC file: '' @ e else e)), s)
         | Inr im \<Rightarrow>
             (case as_size (CONFIG s ''display_size'') of
                Inl e \<Rightarrow> (Inl (Uncaught e), s)
              | Inr target_size \<Rightarrow>
                  (case resize_and_crop_image (arith env) im target_size of
                     Inl e \<Rightarrow> (Inl (Uncaught e), s)
                   | Inr processed_image \<Rightarrow>
                       store_image env (convert_RGB processed_image) timestamp s))))"

text \<open>The detail of the response for the two errors the handler words itself.\<close>

fun detail :: "upload_error \<Rightarrow> string option" where
  "detail UnsupportedFormatError = Some heic_detail"
| "detail (DecodeError msg) = Some msg"
| "detail (Uncaught e) = None"

text \<open>A run of uploads, each \<open>(filename, contents, timestamp)\<close>, with the results in order.\<close>

fun uploads ::
  "'f env \<Rightarrow> (string \<times> bytes \<times> string) list \<Rightarrow> state \<Rightarrow> (upload_error + string) list \<times> state"
where
  "uploads env [] s = ([], s)"
| "uploads env (r # rs) s =
     (case r of (filename, contents, timestamp) \<Rightarrow>
        (case upload_image env filename contents timestamp s of
           (res, s1) \<Rightarrow> (case uploads env rs s1 of (ress, s2) \<Rightarrow> (res # ress, s2))))"

subsection \<open>get_images, update_config, control_cycling (lines 249-291)\<close>

definition get_images :: "state \<Rightarrow> string list \<times> int \<times> nat" where
  "get_images s = (map name (image_files s), current_image_index s, length (image_files s))"

text \<open>\<open>update_config\<close> has no failing branch: it merges, writes the file and answers.\<close>

definition update_config :: "(string \<rightharpoonup> cval) \<Rightarrow> state \<Rightarrow> (py_error + string) \<times> state" where
  "update_config config s =
     (let s1 = s\<lparr>CONFIG := CONFIG s ++ config\<rparr>;
          s2 = s1\<lparr>config_json := Some (CONFIG s1)\<rparr>
      in (Inr ''Configuration updated'', s2))"


subsection \<open>The states the server can reach\<close>


text \<open>The state after lines 216-227: the file saved, the list extended, the thumbnail made.\<close>

definition stored :: "'f env \<Rightarrow> image \<Rightarrow> string \<Rightarrow> state \<Rightarrow> state" where
  "stored env im timestamp s =
     snd (create_thumbnail env (image_path_at timestamp)
       (s\<lparr>disk := (disk s)(image_path_at timestamp \<mapsto> encode_jpeg env im 95),
         image_files := image_files s @ [image_path_at timestamp]\<rparr>))"

subsection \<open>A small environment to run the model in\<close>

text \<open>
  No HEIC codec, exact arithmetic, a decoder that refuses the empty file and reads
  every other one as a 1600 by 1200 picture; \<open>max_images\<close> is 2 and the directory is
  empty.
\<close>

definition example_image :: image where
  "example_image = \<lparr>width = 1600, height = 1200, mode = ''RGB''\<rparr>"

definition example_env :: "rat env" where
  "example_env =
     \<lparr> HEIC_SUPPORT = False,
       arith = exact_ops,
       image_open = (\<lambda>data. if data = [] then Inl ''cannot identify image file''
                             else Inr example_image),
       encode_jpeg = (\<lambda>im quality. ''JPEG''),
       thumbnail = (\<lambda>im sz. im\<lparr>width := 120, height := 90\<rparr>) \<rparr>"

definition example_state :: state where
  "example_state = initial_state (Some [''max_images'' \<mapsto> IntV 2]) Map.empty"

text \<open>The state after two uploads, which fill the collection.\<close>

definition example_full :: state where
  "example_full =
     snd (uploads example_env [(''a.jpg'', ''x'', ''1''), (''b.jpg'', ''y'', ''2'')] example_state)"


section \<open>Resize and crop\<close>




section \<open>What each step leaves unchanged\<close>

lemma display_image_frame:
  "image_files (display_image env p s) = image_files s"
  "current_image_index (display_image env p s) = current_image_index s"
  "CONFIG (display_image env p s) = CONFIG s"
  "disk (display_image env p s) = disk s"
  "cycling_enabled (display_image env p s) = cycling_enabled s"
  "cycle_thread (display_image env p s) = cycle_thread s"
  "config_json (display_image env p s) = config_json s"
  by (simp_all add: display_image_def split: option.split sum.split)

lemma create_thumbnail_frame:
  "image_files (snd (create_thumbnail env p s)) = image_files s"
  "current_image_index (snd (create_thumbnail env p s)) = current_image_index s"
  "CONFIG (snd (create_thumbnail env p s)) = CONFIG s"
  "cycling_enabled (snd (create_thumbnail env p s)) = cycling_enabled s"
  "cycle_thread (snd (create_thumbnail env p s)) = cycle_thread s"
  "config_json (snd (create_thumbnail env p s)) = config_json s"
  "displayed (snd (create_thumbnail env p s)) = displayed s"
  by (simp_all add: create_thumbnail_def Let_def split: option.split sum.split)

lemma evict_frame:
  "current_image_index (snd (evict s)) = current_image_index s"
  "CONFIG (snd (evict s)) = CONFIG s"
  "cycling_enabled (snd (evict s)) = cycling_enabled s"
  "cycle_thread (snd (evict s)) = cycle_thread s"
  "config_json (snd (evict s)) = config_json s"
  "displayed (snd (evict s)) = displayed s"
  by (simp_all add: evict_def Let_def split: list.split)

lemma evict_image_files:
  "image_files s \<noteq> [] \<Longrightarrow> image_files (snd (evict s)) = tl (image_files s)"
  by (auto simp: evict_def Let_def split: list.split)

lemma evict_ok_disk:
  assumes "evict s = (None, s')" "image_files s \<noteq> []"
  shows "disk s' (hd (image_files s)) = None"
    and "disk s' (thumb_path_of (name (hd (image_files s)))) = None"
  using assms by (auto simp: evict_def Let_def split: list.splits if_splits)

lemma stored_frame:
  "image_files (stored env im t s) = image_files s @ [image_path_at t]"
  "current_image_index (stored env im t s) = current_image_index s"
  "CONFIG (stored env im t s) = CONFIG s"
  "cycling_enabled (stored env im t s) = cycling_enabled s"
  "cycle_thread (stored env im t s) = cycle_thread s"
  "config_json (stored env im t s) = config_json s"
  "displayed (stored env im t s) = displayed s"
  by (simp_all add: stored_def create_thumbnail_frame)

lemma store_image_unfold:
  "store_image env im t s =
     (case len_exceeds (Suc (length (image_files s))) (CONFIG s ''max_images'') of
        Inl e \<Rightarrow> (Inl (Uncaught e), stored env im t s)
      | Inr exceeds \<Rightarrow>
          (case fst (if exceeds then evict (stored env im t s) else (None, stored env im t s)) of
             Some e \<Rightarrow> (Inl (Uncaught e),
                 snd (if exceeds then evict (stored env im t s) else (None, stored env im t s)))
           | None \<Rightarrow> (Inr (''image_'' @ t @ ''.jpg''),
                 display_image env (image_path_at t)
                   (snd (if exceeds then evict (stored env im t s) else (None, stored env im t s))))))"
  by (simp add: store_image_def stored_def Let_def create_thumbnail_frame
      split: sum.split prod.split option.split)

lemma store_image_error:
  "store_image env im t s = (Inl e, s') \<Longrightarrow> \<exists>x. e = Uncaught x"
  by (auto simp: store_image_unfold split: sum.splits option.splits)

lemma store_image_frame:
  "current_image_index (snd (store_image env im t s)) = current_image_index s"
  "CONFIG (snd (store_image env im t s)) = CONFIG s"
  "cycling_enabled (snd (store_image env im t s)) = cycling_enabled s"
  "cycle_thread (snd (store_image env im t s)) = cycle_thread s"
  "config_json (snd (store_image env im t s)) = config_json s"
  by (simp_all add: store_image_unfold stored_frame display_image_frame evict_frame
      split: sum.split option.split)

lemma upload_image_frame:
  "current_image_index (snd (upload_image env f c t s)) = current_image_index s"
  "CONFIG (snd (upload_image env f c t s)) = CONFIG s"
  "cycling_enabled (snd (upload_image env f c t s)) = cycling_enabled s"
  "cycle_thread (snd (upload_image env f c t s)) = cycle_thread s"
  "config_json (snd (upload_image env f c t s)) = config_json s"
  by (simp_all add: upload_image_def store_image_frame split: sum.split)

lemma store_image_not_rejected:
  "fst (store_image env im t s) \<noteq> Inl UnsupportedFormatError"
  "fst (store_image env im t s) \<noteq> Inl (DecodeError d)"
  by (simp_all add: store_image_unfold split: sum.split option.split)

section \<open>A run in the small environment\<close>

lemma example_config:
  "CONFIG example_state ''max_images'' = Some (IntV 2)"
  "CONFIG example_state ''display_size'' = Some (SizeV 800 480)"
  "CONFIG example_state ''cycle_interval'' = Some (IntV 600)"
  "image_files example_state = []"
  "current_image_index example_state = 0"
  by (simp_all add: example_state_def initial_state_def default_CONFIG_def)

lemma example_three_uploads:
  "fst (uploads example_env
          [(''a.jpg'', ''x'', ''1''), (''b.jpg'', ''y'', ''2''), (''c.jpg'', ''z'', ''3'')]
          example_state)
     = [Inr ''image_1.jpg'', Inr ''image_2.jpg'', Inr ''image_3.jpg'']"
  by code_simp

lemma example_heic: "is_heic ''photo.HEIC''" "\<not> is_heic ''a.jpg''"
  by code_simp+

lemma example_full_facts:
  "image_files example_full = [image_path_at ''1'', image_path_at ''2'']"
  "CONFIG example_full ''max_images'' = Some (IntV 2)"
  "disk example_full (image_path_at ''1'') = Some ''JPEG''"
  "disk example_full (thumb_path_of ''image_1.jpg'') = Some ''JPEG''"
  "fst (upload_image example_env ''c.jpg'' ''z'' ''3'' example_full) = Inr ''image_3.jpg''"
  by code_simp+

lemma example_cycling:
  "cycling_enabled example_full"
  "sleep (CONFIG example_full ''cycle_interval'') = None"
  "current_image_index example_full = 0"
  "cycling_enabled example_state"
  "sleep (CONFIG example_state ''cycle_interval'') = None"
  "displayed (cycle_images example_env 3 example_full)
     = displayed example_full @ [image_path_at ''1'', image_path_at ''2'', image_path_at ''1'']"
  by code_simp+


section \<open>Uploads that are refused\<close>

text \<open>
  C9. An upload fails with the unsupported-format error exactly when the file's name
  says HEIC or HEIF (the test the handler makes of the format, line 187) and the codec
  is not available; when that is not the case it fails with a decode error exactly
  when Pillow cannot open the bytes. Both are answered with status 400 and a detail
  text.
\<close>

theorem upload_image_error_kinds:
  "(fst (upload_image env filename contents timestamp s) = Inl UnsupportedFormatError)
     = (is_heic filename \<and> \<not> HEIC_SUPPORT env) \<and>
   (\<exists>d. fst (upload_image env filename contents timestamp s) = Inl (DecodeError d))
     = ((\<exists>msg. image_open env contents = Inl msg) \<and> \<not> (is_heic filename \<and> \<not> HEIC_SUPPORT env)) \<and>
   status_code UnsupportedFormatError = 400 \<and>
   detail UnsupportedFormatError = Some heic_detail \<and>
   status_code (DecodeError d') = 400 \<and>
   detail (DecodeError d') = Some d'"
proof -
  have a: "(fst (upload_image env filename contents timestamp s) = Inl UnsupportedFormatError)
     = (is_heic filename \<and> \<not> HEIC_SUPPORT env)"
    by (simp add: upload_image_def store_image_not_rejected split: sum.split)
  have b: "(\<exists>d. fst (upload_image env filename contents timestamp s) = Inl (DecodeError d))
     = ((\<exists>msg. image_open env contents = Inl msg) \<and> \<not> (is_heic filename \<and> \<not> HEIC_SUPPORT env))"
    by (auto simp: upload_image_def store_image_not_rejected split: sum.split)
  show ?thesis using a b by (simp add: status_code_def)
qed

theorem upload_image_error_kinds_witness:
  "is_heic ''photo.HEIC'' \<and> \<not> HEIC_SUPPORT example_env \<and>
   fst (upload_image example_env ''photo.HEIC'' ''x'' ''1'' example_state) = Inl UnsupportedFormatError \<and>
   image_open example_env [] = Inl ''cannot identify image file'' \<and>
   (\<exists>d. fst (upload_image example_env ''a.jpg'' [] ''1'' example_state) = Inl (DecodeError d))"
  using upload_image_error_kinds[of example_env "''photo.HEIC''" "''x''" "''1''" example_state]
    upload_image_error_kinds[of example_env "''a.jpg''" "[]" "''1''" example_state]
  by (simp add: example_heic example_env_def)

text \<open>
  C10. When an upload fails with the unsupported-format error or with a decode error,
  the state after the request is the state before it: the collection, the cursor and
  the files on disk are unchanged.
\<close>

theorem upload_image_rejected_unchanged:
  assumes "upload_image env filename contents timestamp s = (Inl e, s')"
    and "e = UnsupportedFormatError \<or> (\<exists>d. e = DecodeError d)"
  shows "status_code e = 400 \<and> s' = s \<and> image_files s' = image_files s \<and>
         current_image_index s' = current_image_index s \<and> disk s' = disk s"
proof -
  have "s' = s"
    using assms
    by (auto simp: upload_image_def split: if_splits sum.splits dest: store_image_error)
  then show ?thesis by (simp add: status_code_def)
qed

theorem upload_image_rejected_unchanged_witness:
  "upload_image example_env ''photo.HEIC'' ''x'' ''1'' example_state
     = (Inl UnsupportedFormatError, example_state) \<and>
   upload_image example_env ''a.jpg'' [] ''1'' example_state
     = (Inl (DecodeError ''cannot identify image file''), example_state)"
proof -
  have a: "upload_image example_env ''photo.HEIC'' ''x'' ''1'' example_state
     = (Inl UnsupportedFormatError, snd (upload_image example_env ''photo.HEIC'' ''x'' ''1'' example_state))"
    by (simp add: upload_image_def example_heic example_env_def)
  have b: "upload_image example_env ''a.jpg'' [] ''1'' example_state
     = (Inl (DecodeError ''cannot identify image file''), snd (upload_image example_env ''a.jpg'' [] ''1'' example_state))"
    by (simp add: upload_image_def example_heic example_env_def)
  show ?thesis
    using upload_image_rejected_unchanged[OF a] upload_image_rejected_unchanged[OF b] a b
    by simp
qed

section \<open>Eviction\<close>

text \<open>
  C8. When a successful upload finds the collection above \<open>max_images\<close> after appending,
  the oldest element leaves the collection and neither its file nor its thumbnail is
  on disk afterwards.
\<close>

theorem upload_image_eviction_deletes:
  assumes ok: "upload_image env filename contents timestamp s = (Inr stored_name, s')"
    and over: "len_exceeds (Suc (length (image_files s))) (CONFIG s ''max_images'') = Inr True"
  shows "image_files s' = tl (image_files s @ [image_path_at timestamp]) \<and>
         disk s' (hd (image_files s @ [image_path_at timestamp])) = None \<and>
         disk s' (thumb_path_of (name (hd (image_files s @ [image_path_at timestamp])))) = None"
proof -
  from ok obtain im where st: "store_image env im timestamp s = (Inr stored_name, s')"
    by (auto simp: upload_image_def split: if_splits sum.splits)
  let ?S = "stored env im timestamp s"
  from st over have ev: "fst (evict ?S) = None"
    and s': "s' = display_image env (image_path_at timestamp) (snd (evict ?S))"
    by (auto simp: store_image_unfold split: option.splits)
  have ne: "image_files ?S \<noteq> []" by (simp add: stored_frame)
  have e: "evict ?S = (None, snd (evict ?S))" using ev by (simp add: prod_eq_iff)
  show ?thesis
    using evict_ok_disk[OF e ne] evict_image_files[OF ne]
    by (simp add: s' display_image_frame stored_frame)
qed

theorem upload_image_eviction_deletes_witness:
  "fst (upload_image example_env ''c.jpg'' ''z'' ''3'' example_full) = Inr ''image_3.jpg'' \<and>
   len_exceeds (Suc (length (image_files example_full))) (CONFIG example_full ''max_images'')
     = Inr True \<and>
   disk example_full (image_path_at ''1'') = Some ''JPEG'' \<and>
   disk example_full (thumb_path_of ''image_1.jpg'') = Some ''JPEG'' \<and>
   image_files (snd (upload_image example_env ''c.jpg'' ''z'' ''3'' example_full))
     = [image_path_at ''2'', image_path_at ''3''] \<and>
   disk (snd (upload_image example_env ''c.jpg'' ''z'' ''3'' example_full)) (image_path_at ''1'')
     = None \<and>
   disk (snd (upload_image example_env ''c.jpg'' ''z'' ''3'' example_full))
     (thumb_path_of ''image_1.jpg'') = None"
proof -
  have ok: "upload_image example_env ''c.jpg'' ''z'' ''3'' example_full
      = (Inr ''image_3.jpg'', snd (upload_image example_env ''c.jpg'' ''z'' ''3'' example_full))"
    using example_full_facts(5) by (simp add: prod_eq_iff)
  have over: "len_exceeds (Suc (length (image_files example_full)))
      (CONFIG example_full ''max_images'') = Inr True"
    by (simp add: example_full_facts len_exceeds_def)
  have nm: "name (image_path_at ''1'') = ''image_1.jpg''"
    by (simp add: name_def image_path_at_def)
  show ?thesis
    using upload_image_eviction_deletes[OF ok over] over
    by (simp add: example_full_facts nm)
qed

section \<open>The bounded collection\<close>

lemma store_image_files:
  "image_files (snd (store_image env im t s)) =
     (if len_exceeds (Suc (length (image_files s))) (CONFIG s ''max_images'') = Inr True
      then tl (image_files s @ [image_path_at t]) else image_files s @ [image_path_at t])"
  by (simp add: store_image_unfold stored_frame display_image_frame evict_image_files
      split: sum.split option.split)


lemma upload_image_files_ok:
  assumes "fst (upload_image env f c t s) = Inr n"
  shows "image_files (snd (upload_image env f c t s)) =
     (if len_exceeds (Suc (length (image_files s))) (CONFIG s ''max_images'') = Inr True
      then tl (image_files s @ [image_path_at t]) else image_files s @ [image_path_at t])"
  using assms by (auto simp: upload_image_def store_image_files split: sum.splits if_splits)

lemma keep_step:
  assumes "length xs \<le> m"
  shows "(if m < Suc (length xs) then tl (xs @ [x]) else xs @ [x])
           = drop (length (xs @ [x]) - m) (xs @ [x])"
proof (cases "m = length xs")
  case True
  have "drop (Suc 0) ys = tl ys" for ys :: "'a list" by (simp add: drop_Suc)
  then have "tl (xs @ [x]) = drop (Suc (length xs) - length xs) (xs @ [x])"
    by (simp only: diff_Suc_1' Suc_diff_le[OF order_refl] diff_self_eq_0)
  with True show ?thesis by simp
next
  case False
  with assms show ?thesis by simp
qed

lemma keep_keep:
  "drop (length (drop (length A - m) A @ B) - m) (drop (length A - m) A @ B)
     = drop (length (A @ B) - m) (A @ B)"
proof (cases "length A \<le> m")
  case True
  then show ?thesis by simp
next
  case False
  then have "length A - (length A - m) = m" by simp
  moreover have "length A + length B - m = (length A - m) + length B" using False by simp
  ultimately show ?thesis by (simp add: add.commute)
qed

lemma uploads_take:
  "fst (uploads env (take k reqs) s) = take k (fst (uploads env reqs s))"
proof (induction reqs arbitrary: k s)
  case Nil
  then show ?case by simp
next
  case (Cons r reqs)
  show ?case
  proof (cases k)
    case 0
    then show ?thesis by simp
  next
    case (Suc j)
    then show ?thesis using Cons.IH[of j] by (simp add: split_beta)
  qed
qed

lemma uploads_CONFIG: "CONFIG (snd (uploads env reqs s)) = CONFIG s"
  by (induction reqs arbitrary: s) (simp_all add: split_beta upload_image_frame)

lemma uploads_all_ok:
  assumes cfg: "CONFIG s ''max_images'' = Some (IntV m)"
    and len: "int (length (image_files s)) \<le> m"
    and ok: "\<forall>r\<in>set (fst (uploads env reqs s)). \<not> isl r"
  shows "image_files (snd (uploads env reqs s)) =
           drop (length (image_files s @ map (\<lambda>r. image_path_at (snd (snd r))) reqs) - nat m)
             (image_files s @ map (\<lambda>r. image_path_at (snd (snd r))) reqs)"
  using assms
proof (induction reqs arbitrary: s)
  case Nil
  then show ?case by simp
next
  case (Cons r reqs)
  obtain f c t where r: "r = (f, c, t)" by (cases r) auto
  let ?s1 = "snd (upload_image env f c t s)"
  let ?xs = "image_files s"
  from Cons.prems(3) r obtain n where first: "fst (upload_image env f c t s) = Inr n"
    by (cases "fst (upload_image env f c t s)") (auto simp: split_beta)
  have lm: "length ?xs \<le> nat m" using Cons.prems(2) by simp
  have ex: "(len_exceeds (Suc (length ?xs)) (CONFIG s ''max_images'') = Inr True)
              = (nat m < Suc (length ?xs))"
    using Cons.prems(1,2) by (auto simp: len_exceeds_def)
  have files1: "image_files ?s1 = drop (length (?xs @ [image_path_at t]) - nat m) (?xs @ [image_path_at t])"
    using upload_image_files_ok[OF first] keep_step[OF lm, of "image_path_at t"]
    by (simp only: ex)
  have cfg1: "CONFIG ?s1 ''max_images'' = Some (IntV m)"
    using Cons.prems(1) by (simp add: upload_image_frame)
  have len1: "int (length (image_files ?s1)) \<le> m"
    using Cons.prems(2) by (simp add: files1)
  have ok1: "\<forall>r\<in>set (fst (uploads env reqs ?s1)). \<not> isl r"
    using Cons.prems(3) r by (simp add: split_beta)
  have "image_files (snd (uploads env reqs ?s1)) =
          drop (length (image_files ?s1 @ map (\<lambda>r. image_path_at (snd (snd r))) reqs) - nat m)
             (image_files ?s1 @ map (\<lambda>r. image_path_at (snd (snd r))) reqs)"
    by (rule Cons.IH[OF cfg1 len1 ok1])
  also have "\<dots> = drop (length ((?xs @ [image_path_at t]) @ map (\<lambda>r. image_path_at (snd (snd r))) reqs) - nat m)
             ((?xs @ [image_path_at t]) @ map (\<lambda>r. image_path_at (snd (snd r))) reqs)"
    unfolding files1 by (rule keep_keep)
  finally show ?case by (simp add: r split_beta)
qed

text \<open>
  C1. With \<open>max_images\<close> fixed at \<open>m\<close> and a collection of at most \<open>m\<close> elements to start
  from, after each of a run of successful uploads the collection has at most \<open>m\<close>
  elements and holds the last \<open>m\<close> of the identifiers it held and received, oldest
  first; from the \<open>m\<close>-th upload on these are exactly the identifiers of the last \<open>m\<close>
  uploads.
\<close>

theorem uploads_keep_most_recent:
  assumes cfg: "CONFIG s ''max_images'' = Some (IntV m)"
    and len: "int (length (image_files s)) \<le> m"
    and ok: "\<forall>r\<in>set (fst (uploads env reqs s)). \<not> isl r"
    and k: "k \<le> length reqs"
  shows "int (length (image_files (snd (uploads env (take k reqs) s)))) \<le> m \<and>
         image_files (snd (uploads env (take k reqs) s)) =
           drop (length (image_files s) + k - nat m)
             (image_files s @ map (\<lambda>r. image_path_at (snd (snd r))) (take k reqs)) \<and>
         (nat m \<le> k \<longrightarrow>
            image_files (snd (uploads env (take k reqs) s)) =
              drop (k - nat m) (map (\<lambda>r. image_path_at (snd (snd r))) (take k reqs))) \<and>
         CONFIG (snd (uploads env (take k reqs) s)) ''max_images'' = Some (IntV m)"
proof -
  let ?ids = "map (\<lambda>r. image_path_at (snd (snd r))) (take k reqs)"
  let ?xs = "image_files s"
  have "set (take k (fst (uploads env reqs s))) \<subseteq> set (fst (uploads env reqs s))"
    by (rule set_take_subset)
  with ok have okk: "\<forall>r\<in>set (fst (uploads env (take k reqs) s)). \<not> isl r"
    by (auto simp: uploads_take)
  have lk: "length ?ids = k" using k by simp
  have eq: "image_files (snd (uploads env (take k reqs) s)) =
              drop (length ?xs + k - nat m) (?xs @ ?ids)"
    using uploads_all_ok[OF cfg len okk] lk by simp
  have lm: "length ?xs \<le> nat m" using len by simp
  have a: "int (length (image_files (snd (uploads env (take k reqs) s)))) \<le> m"
    using lm lk len by (simp add: eq)
  have b: "drop (length ?xs + k - nat m) (?xs @ ?ids) = drop (k - nat m) ?ids" if "nat m \<le> k"
  proof -
    have "length ?xs + k - nat m = length ?xs + (k - nat m)" using that by simp
    then show ?thesis by (simp add: drop_append)
  qed
  show ?thesis using a b eq cfg by (simp add: uploads_CONFIG)
qed

theorem uploads_keep_most_recent_witness:
  "CONFIG example_state ''max_images'' = Some (IntV 2) \<and>
   int (length (image_files example_state)) \<le> 2 \<and>
   fst (uploads example_env
          [(''a.jpg'', ''x'', ''1''), (''b.jpg'', ''y'', ''2''), (''c.jpg'', ''z'', ''3'')]
          example_state)
     = [Inr ''image_1.jpg'', Inr ''image_2.jpg'', Inr ''image_3.jpg''] \<and>
   image_files (snd (uploads example_env
          [(''a.jpg'', ''x'', ''1''), (''b.jpg'', ''y'', ''2''), (''c.jpg'', ''z'', ''3'')]
          example_state))
     = [image_path_at ''2'', image_path_at ''3'']"
proof -
  let ?reqs = "[(''a.jpg'', ''x'', ''1''), (''b.jpg'', ''y'', ''2''), (''c.jpg'', ''z'', ''3'')]"
  have ok: "\<forall>r\<in>set (fst (uploads example_env ?reqs example_state)). \<not> isl r"
    unfolding example_three_uploads by simp
  have len: "int (length (image_files example_state)) \<le> 2"
    by (simp add: example_config)
  show ?thesis
    using uploads_keep_most_recent[OF example_config(1) len ok, of 3]
    by (simp add: example_config example_three_uploads del: uploads.simps)
qed

section \<open>Identifiers\<close>






section \<open>Configuration updates\<close>

text \<open>
  C2 as stated fails: the update \<open>{"saturation": 1.5}\<close> is answered with success, and
  the value is stored and written to \<open>config.json\<close>.
\<close>

theorem update_config_saturation_counterexample:
  "CONFIG example_state ''saturation'' = Some (FloatV (1 / 2)) \<and>
   fst (update_config [''saturation'' \<mapsto> FloatV (3 / 2)] example_state) = Inr ''Configuration updated'' \<and>
   CONFIG (snd (update_config [''saturation'' \<mapsto> FloatV (3 / 2)] example_state)) ''saturation''
     = Some (FloatV (3 / 2)) \<and>
   (\<exists>saved. config_json (snd (update_config [''saturation'' \<mapsto> FloatV (3 / 2)] example_state)) = Some saved
       \<and> saved ''saturation'' = Some (FloatV (3 / 2)))"
  by (simp add: update_config_def Let_def example_state_def initial_state_def default_CONFIG_def)

text \<open>
  C2, amended. Every update succeeds: the given fields are merged over the current
  configuration as they are, whatever their values, the other fields keep their
  values, and the merged configuration is written to \<open>config.json\<close>.
\<close>

theorem update_config_merges:
  "update_config config s =
     (Inr ''Configuration updated'',
      s\<lparr>CONFIG := CONFIG s ++ config, config_json := Some (CONFIG s ++ config)\<rparr>) \<and>
   (\<forall>k v. config k = Some v \<longrightarrow> CONFIG (snd (update_config config s)) k = Some v) \<and>
   (\<forall>k. config k = None \<longrightarrow> CONFIG (snd (update_config config s)) k = CONFIG s k)"
  by (simp add: update_config_def Let_def map_add_def)

theorem update_config_merges_witness:
  "CONFIG (snd (update_config [''max_images'' \<mapsto> IntV 5] example_state)) ''max_images'' = Some (IntV 5) \<and>
   CONFIG (snd (update_config [''max_images'' \<mapsto> IntV 5] example_state)) ''cycle_interval'' = Some (IntV 600)"
  using update_config_merges[of "[''max_images'' \<mapsto> IntV 5]" example_state]
  by (simp add: example_config)

section \<open>The cycling loop\<close>

lemma display_image_cursor_update:
  "display_image env p (s\<lparr>current_image_index := x\<rparr>)
     = (display_image env p s)\<lparr>current_image_index := x\<rparr>"
  by (simp add: display_image_def split: option.split sum.split)

lemma fold_display_image_cursor_update:
  "fold (display_image env) ps (s\<lparr>current_image_index := x\<rparr>)
     = (fold (display_image env) ps s)\<lparr>current_image_index := x\<rparr>"
  by (induction ps arbitrary: s) (simp_all add: display_image_cursor_update)

lemma fold_display_image_frame:
  "image_files (fold (display_image env) ps s) = image_files s"
  "CONFIG (fold (display_image env) ps s) = CONFIG s"
  "cycling_enabled (fold (display_image env) ps s) = cycling_enabled s"
  by (induction ps arbitrary: s) (simp_all add: display_image_frame)

lemma tick_in_range:
  assumes "image_files s \<noteq> []" "0 \<le> current_image_index s"
    "current_image_index s < int (length (image_files s))"
  shows "tick env s =
           Inr ((display_image env (image_files s ! nat (current_image_index s)) s)
                  \<lparr>current_image_index :=
                     (current_image_index s + 1) mod int (length (image_files s))\<rparr>)"
  using assms by (simp add: tick_def py_index_def Let_def display_image_frame)

lemma cycle_images_in_range:
  assumes "cycling_enabled s" "sleep (CONFIG s ''cycle_interval'') = None"
    "image_files s \<noteq> []" "0 \<le> current_image_index s"
    "current_image_index s < int (length (image_files s))"
  shows "cycle_images env K s =
           (fold (display_image env)
              (map (\<lambda>i. image_files s !
                     nat ((current_image_index s + int i) mod int (length (image_files s))))
                 [0..<K]) s)
             \<lparr>current_image_index :=
                (current_image_index s + int K) mod int (length (image_files s))\<rparr>"
  using assms
proof (induction K arbitrary: s)
  case 0
  then show ?case by simp
next
  case (Suc K)
  let ?c = "current_image_index s"
  let ?L = "int (length (image_files s))"
  let ?p = "image_files s ! nat ?c"
  let ?s1 = "(display_image env ?p s)\<lparr>current_image_index := (?c + 1) mod ?L\<rparr>"
  have Lpos: "0 < ?L" using Suc.prems(3) by simp
  have t: "tick env s = Inr ?s1"
    by (rule tick_in_range[OF Suc.prems(3,4,5)])
  have step: "cycle_images env (Suc K) s = cycle_images env K ?s1"
    using Suc.prems(1,2) t by (simp add: display_image_frame)
  have ih: "cycle_images env K ?s1 =
      (fold (display_image env)
         (map (\<lambda>i. image_files s ! nat (((?c + 1) mod ?L + int i) mod ?L)) [0..<K]) ?s1)
        \<lparr>current_image_index := ((?c + 1) mod ?L + int K) mod ?L\<rparr>"
    using Suc.IH[of ?s1] Suc.prems(1,2,3) Lpos
    by (simp add: display_image_frame)
  have m: "((?c + 1) mod ?L + int i) mod ?L = (?c + int (Suc i)) mod ?L" for i
  proof -
    have "((?c + 1) mod ?L + int i) mod ?L = ((?c + 1) + int i) mod ?L"
      by (rule mod_add_left_eq)
    also have "(?c + 1) + int i = ?c + int (Suc i)" by simp
    finally show ?thesis .
  qed
  have c0: "(?c + int 0) mod ?L = ?c" using Suc.prems(4,5) by simp
  have l: "map (\<lambda>i. image_files s ! nat ((?c + int i) mod ?L)) [0..<Suc K]
        = ?p # map (\<lambda>i. image_files s ! nat (((?c + 1) mod ?L + int i) mod ?L)) [0..<K]"
  proof -
    have "[0..<Suc K] = 0 # map Suc [0..<K]"
      by (simp add: upt_conv_Cons map_Suc_upt del: upt_Suc)
    then show ?thesis using c0 by (simp add: m o_def del: upt_Suc)
  qed
  show ?case
    unfolding step ih l by (simp add: fold_display_image_cursor_update m)
qed

lemma cycle_images_empty:
  assumes "cycling_enabled s" "sleep (CONFIG s ''cycle_interval'') = None" "image_files s = []"
  shows "cycle_images env K s = s"
  using assms by (induction K) (simp_all add: tick_def)

text \<open>
  C3. While cycling is enabled and the sleep of line 126 does not raise: on a
  collection of length \<open>L > 0\<close> with the cursor \<open>c\<close> in \<open>[0, L)\<close>, \<open>K\<close> passes of the loop
  call \<open>display_image\<close> on the images at \<open>c, c + 1, \<dots>\<close> (modulo \<open>L\<close>), each before the
  cursor advances, leave the collection as it is and end with the cursor at
  \<open>(c + K) mod L\<close>; on an empty collection a pass changes nothing.
\<close>

theorem cycle_images_cursor:
  assumes en: "cycling_enabled s" and sl: "sleep (CONFIG s ''cycle_interval'') = None"
  shows "(image_files s = [] \<longrightarrow> tick env s = Inr s \<and> cycle_images env K s = s) \<and>
         (image_files s \<noteq> [] \<and> 0 \<le> current_image_index s \<and>
          current_image_index s < int (length (image_files s)) \<longrightarrow>
            cycle_images env K s =
              (fold (display_image env)
                 (map (\<lambda>i. image_files s !
                        nat ((current_image_index s + int i) mod int (length (image_files s))))
                    [0..<K]) s)
                \<lparr>current_image_index :=
                   (current_image_index s + int K) mod int (length (image_files s))\<rparr> \<and>
            current_image_index (cycle_images env K s) =
              (current_image_index s + int K) mod int (length (image_files s)) \<and>
            image_files (cycle_images env K s) = image_files s)"
proof (intro conjI impI)
  assume "image_files s = []"
  then show "tick env s = Inr s" by (simp add: tick_def)
  from \<open>image_files s = []\<close> show "cycle_images env K s = s"
    by (rule cycle_images_empty[OF en sl])
next
  assume a: "image_files s \<noteq> [] \<and> 0 \<le> current_image_index s \<and>
          current_image_index s < int (length (image_files s))"
  then have r: "cycle_images env K s =
              (fold (display_image env)
                 (map (\<lambda>i. image_files s !
                        nat ((current_image_index s + int i) mod int (length (image_files s))))
                    [0..<K]) s)
                \<lparr>current_image_index :=
                   (current_image_index s + int K) mod int (length (image_files s))\<rparr>"
    using cycle_images_in_range[OF en sl] by blast
  show "cycle_images env K s =
              (fold (display_image env)
                 (map (\<lambda>i. image_files s !
                        nat ((current_image_index s + int i) mod int (length (image_files s))))
                    [0..<K]) s)
                \<lparr>current_image_index :=
                   (current_image_index s + int K) mod int (length (image_files s))\<rparr>"
    by (rule r)
  show "current_image_index (cycle_images env K s) =
              (current_image_index s + int K) mod int (length (image_files s))"
    by (simp add: r)
  show "image_files (cycle_images env K s) = image_files s"
    by (simp add: r fold_display_image_frame)
qed

theorem cycle_images_cursor_witness:
  "cycling_enabled example_full \<and>
   sleep (CONFIG example_full ''cycle_interval'') = None \<and>
   image_files example_full = [image_path_at ''1'', image_path_at ''2''] \<and>
   current_image_index example_full = 0 \<and>
   current_image_index (cycle_images example_env 3 example_full) = 1 \<and>
   image_files (cycle_images example_env 3 example_full) = image_files example_full \<and>
   displayed (cycle_images example_env 3 example_full)
     = displayed example_full @ [image_path_at ''1'', image_path_at ''2'', image_path_at ''1''] \<and>
   image_files example_state = [] \<and>
   cycle_images example_env 3 example_state = example_state"
proof -
  have pre: "image_files example_full \<noteq> [] \<and> 0 \<le> current_image_index example_full \<and>
      current_image_index example_full < int (length (image_files example_full))"
    by (simp add: example_cycling example_full_facts)
  from cycle_images_cursor[OF example_cycling(1,2), of example_env 3] pre
  have c: "current_image_index (cycle_images example_env 3 example_full) =
        (current_image_index example_full + int 3) mod int (length (image_files example_full))"
    and f: "image_files (cycle_images example_env 3 example_full) = image_files example_full"
    by blast+
  from cycle_images_cursor[OF example_cycling(4,5), of example_env 3]
  have e: "cycle_images example_env 3 example_state = example_state"
    by (simp add: example_config)
  from c have c': "current_image_index (cycle_images example_env 3 example_full) = 1"
    by (simp add: example_cycling example_full_facts)
  show ?thesis
    using c' f e by (simp add: example_cycling example_full_facts example_config)
qed

section \<open>The cursor stays inside the collection\<close>

lemma fold_create_thumbnail_frame:
  "image_files (fold (\<lambda>img t. snd (create_thumbnail env img t)) ps s) = image_files s"
  "current_image_index (fold (\<lambda>img t. snd (create_thumbnail env img t)) ps s)
     = current_image_index s"
  by (induction ps arbitrary: s) (simp_all add: create_thumbnail_frame)





lemma startup_event_length:
  assumes "startup_event env listing s = Inr s'"
    and "CONFIG s ''max_images'' = Some (IntV m)" and "0 < m"
  shows "int (length (image_files s')) \<le> m"
proof -
  from assms(1) obtain s1 where l: "load_existing_images env listing s = Inr s1"
    and s': "s' = start_cycling s1"
    by (auto simp: startup_event_def split: sum.splits)
  have "image_files (start_cycling s1) = image_files s1"
    by (simp add: start_cycling_def)
  moreover have "int (length (image_files s1)) \<le> m"
    using l assms(2,3)
    by (auto simp: load_existing_images_def Let_def last_max_images_def slice_from_def
        fold_create_thumbnail_frame display_image_frame split: if_splits)
  ultimately show ?thesis by (simp add: s')
qed











end
